theory Spec2Isabelle
  imports Complex_Main
begin

section \<open>Errors and tensors\<close>

text \<open>
  Python exceptions raised on the paths modelled here become values of \<open>error\<close>; a
  function that can raise returns \<open>error + 'a\<close> with \<open>Inl\<close> for the exception.
\<close>

datatype error = AttributeError | RuntimeError | ValueError | ZeroDivisionError | IndexError

definition bind_err :: "error + 'x \<Rightarrow> ('x \<Rightarrow> error + 'y) \<Rightarrow> error + 'y" where
  "bind_err r f = (case r of Inl e \<Rightarrow> Inl e | Inr x \<Rightarrow> f x)"

text \<open>
  A tensor or array is a one-dimensional batch of numbers; floating-point numbers are
  idealised as reals. A parameter is identified by a number, and the values (and the
  gradients) of all parameters form a store.
\<close>

type_synonym tensor = "real list"
type_synonym pid = nat
type_synonym params = "pid \<Rightarrow> real"



section \<open>Models: critics and actor-critics\<close>

text \<open>
  \<open>Critic\<close>: its parameters (what \<open>parameters()\<close> iterates over, as a list) and
  its forward pass, which depends on the parameter values, an observation batch and an
  optional action batch.
\<close>

record ('o, 'a) critic_net =
  parameters :: "pid list"
  forward :: "params \<Rightarrow> 'o \<Rightarrow> 'a option \<Rightarrow> tensor"

text \<open>
  The action distribution returned by \<open>get_action_distribution\<close>: the value that
  \<open>rsample()\<close> draws in this call, and \<open>log_prob\<close>.
\<close>

record 'a distribution =
  rsample :: 'a
  log_prob :: "'a \<Rightarrow> tensor"

text \<open>
  \<open>ActorCritic\<close>: \<open>actor\<close> and \<open>critic\<close> are constructor arguments and always
  present; \<open>critic2\<close>, \<open>target_critic\<close> and \<open>target_critic2\<close> are attributes that a
  model may lack (\<open>None\<close> is "hasattr is false").
\<close>

record ('o, 'a) actor_critic =
  actor_parameters :: "pid list"
  get_action_distribution :: "params \<Rightarrow> 'o \<Rightarrow> 'a distribution"
  forward_critic :: "params \<Rightarrow> 'o \<Rightarrow> 'a option \<Rightarrow> tensor"
  critic :: "('o, 'a) critic_net"
  critic2 :: "('o, 'a) critic_net option"
  target_critic :: "('o, 'a) critic_net option"
  target_critic2 :: "('o, 'a) critic_net option"

datatype ('o, 'a) model = Critic "('o, 'a) critic_net" | ActorCritic "('o, 'a) actor_critic"

section \<open>The soft-Q target\<close>




section \<open>The optimisation step\<close>



text \<open>
  A loss tensor: its value, and the gradient that \<open>backward()\<close> accumulates into the
  \<open>grad\<close> of each parameter (autograd itself is not modelled).
\<close>

record loss =
  item :: real
  backward_grad :: params









section \<open>The critic updaters\<close>

text \<open>
  \<open>BaseCriticUpdater\<close> and the loss of its subclasses. The loss function takes the
  prediction as a function of the parameter values, the target and the current values.
\<close>

record updater =
  optimizer_class :: "real \<Rightarrow> real \<Rightarrow> real \<Rightarrow> real"
  lr :: real
  max_grad :: real
  loss_class :: "(params \<Rightarrow> tensor) \<Rightarrow> tensor \<Rightarrow> params \<Rightarrow> loss"






section \<open>Train frequency\<close>

text \<open>
  Modelled from the spec: the enumeration \<open>TrainFrequencyType\<close> of
  \<open>anvilrl.common.enumerations\<close> is not among the files at hand. The spec and the
  docstring of \<open>fit\<close> give the two kinds \<open>"step"\<close> and \<open>"episode"\<close>; an unrecognised
  kind string is a configuration error.
\<close>

datatype train_frequency_type = STEP | EPISODE

definition TrainFrequencyType :: "string \<Rightarrow> error + train_frequency_type" where
  "TrainFrequencyType s =
     (if s = ''step'' then Inr STEP else if s = ''episode'' then Inr EPISODE else Inl ValueError)"

definition lower_char :: "char \<Rightarrow> char" where
  "lower_char c =
     (let n = of_char c :: nat in if 65 \<le> n \<and> n \<le> 90 then char_of (n + 32) else c)"

definition lower :: "string \<Rightarrow> string" where
  "lower = map lower_char"

text \<open>
  The first lines of both \<open>fit\<close> methods: the kind is normalised, and for the step kind
  the number of loop iterations is \<open>num_steps // train_frequency[1]\<close>. The result is the
  kind, the count and the new value of \<open>num_steps\<close>.
\<close>

definition normalise_frequency ::
  "string \<times> int \<Rightarrow> int \<Rightarrow> error + train_frequency_type \<times> int \<times> int" where
  "normalise_frequency train_frequency num_steps =
     bind_err (TrainFrequencyType (lower (fst train_frequency))) (\<lambda>kind.
       if kind = STEP then
         (if snd train_frequency = 0 then Inl ZeroDivisionError
          else Inr (kind, snd train_frequency, num_steps div snd train_frequency))
       else Inr (kind, snd train_frequency, num_steps))"

section \<open>Done flags and the episode-done mask\<close>

text \<open>
  The done value returned by \<open>env.step\<close>: one boolean for a single environment, a
  boolean array for a vectorised one. \<open>where_true\<close> is \<open>np.where(done)[0]\<close>,
  \<open>where_false\<close> is \<open>np.where(~done)[0]\<close>, \<open>truthy\<close> is the truth value that
  \<open>if done\<close> takes (an array of more than one entry has none).
\<close>

datatype dones = Scalar bool | Batch "bool list"

fun where_true :: "dones \<Rightarrow> nat list" where
  "where_true (Scalar b) = (if b then [0] else [])"
| "where_true (Batch bs) = filter (\<lambda>i. bs ! i) [0..<length bs]"

fun where_false :: "dones \<Rightarrow> nat list" where
  "where_false (Scalar b) = (if b then [] else [0])"
| "where_false (Batch bs) = filter (\<lambda>i. \<not> bs ! i) [0..<length bs]"

fun truthy :: "dones \<Rightarrow> error + bool" where
  "truthy (Scalar b) = Inr b"
| "truthy (Batch []) = Inr False"
| "truthy (Batch [b]) = Inr b"
| "truthy (Batch (b # c # bs)) = Inl ValueError"

text \<open>\<open>flags[indices] = True\<close> on a boolean array; an index outside it raises.\<close>

definition set_true :: "nat list \<Rightarrow> bool list \<Rightarrow> error + bool list" where
  "set_true indices flags =
     (if list_all (\<lambda>i. i < length flags) indices
      then Inr (fold (\<lambda>i m. m[i := True]) indices flags)
      else Inl IndexError)"

text \<open>
  Modelled from the spec: the class \<open>Logger\<close> of \<open>anvilrl.common.logging_\<close> is not
  among the files at hand. Its \<open>episode_dones\<close> is the per-environment mask, and a flush
  (\<open>reset_episode_log\<close>) clears it: every entry is false again, the length is kept.
\<close>

definition reset_episode_log :: "bool list \<Rightarrow> bool list" where
  "reset_episode_log flags = map (\<lambda>_. False) flags"

section \<open>Agents\<close>

text \<open>
  Ghost state: the calls on the environment, the logger and \<open>_fit\<close>, in the order in
  which they happen.
\<close>

datatype event = Render | EnvStep | EnvReset | WriteLog int | ResetEpisodeLog | Fit | AddTrainLog

text \<open>
  What both agent classes hold: the environment, the buffer, the callbacks (\<open>None\<close>
  when none were given), the two counters and the logger's mask.
\<close>

record ('e, 'b, 'c) base_agent =
  env :: 'e
  buffer :: 'b
  callbacks :: "'c list option"
  step :: int
  episode :: int
  episode_dones :: "bool list"
  trace :: "event list"

record ('e, 'b, 'c, 'm) deep_agent = "('e, 'b, 'c) base_agent" +
  model :: 'm
  render :: bool
  terminated :: bool

text \<open>
  \<open>terminated\<close> is the attribute \<open>self.done\<close>. The collaborators of
  \<open>BaseDeepAgent\<close> are parameters: the environment, the explorer, the buffer, numpy's
  indexed assignment \<open>a[indices] = b[indices]\<close> on observations, the callbacks' hook and
  the \<open>_fit\<close> of the concrete agent, which acts on the model and the buffer.
\<close>

record ('e, 'o, 'a, 'm, 'b, 'c) world =
  is_vector_env :: bool
  env_step :: "'e \<Rightarrow> 'a \<Rightarrow> 'e \<times> 'o \<times> tensor \<times> dones"
  env_reset :: "'e \<Rightarrow> 'e \<times> 'o"
  action_explorer :: "'m \<Rightarrow> 'o \<Rightarrow> int \<Rightarrow> 'a"
  add_trajectory :: "'b \<Rightarrow> 'o \<Rightarrow> 'a \<Rightarrow> tensor \<Rightarrow> 'o \<Rightarrow> dones \<Rightarrow> 'b"
  index_assign :: "'o \<Rightarrow> nat list \<Rightarrow> 'o \<Rightarrow> 'o"
  on_step :: "'c \<Rightarrow> int \<Rightarrow> bool \<times> 'c"
  fit_impl :: "int \<Rightarrow> int \<Rightarrow> int \<Rightarrow> 'm \<Rightarrow> 'b \<Rightarrow> 'm \<times> 'b"

text \<open>
  \<open>[callback.on_step(self.step) for callback in self.callbacks]\<close>: every callback is
  called, the list of results is built before \<open>all\<close> looks at it.
\<close>

definition run_callbacks :: "('c \<Rightarrow> int \<Rightarrow> bool \<times> 'c) \<Rightarrow> 'c list \<Rightarrow> int \<Rightarrow> bool list \<times> 'c list" where
  "run_callbacks hook cbs n = (map (\<lambda>c. fst (hook c n)) cbs, map (\<lambda>c. snd (hook c n)) cbs)"

section \<open>The deep-agent orchestrator\<close>

text \<open>
  \<open>BaseDeepAgent.step_env\<close> and \<open>BaseDeepAgent.fit\<close>. \<open>model.eval()\<close>,
  \<open>model.train()\<close>, \<open>logger.debug\<close> and \<open>logger.add_reward\<close> change nothing that
  the loops read and are left out. The body of the \<open>for\<close> loop of \<open>step_env\<close> is
  \<open>interact\<close>, in four pieces; its last component tells whether \<open>break\<close> was taken.
\<close>

definition log_event :: "event \<Rightarrow> ('e, 'b, 'c, 'z) base_agent_scheme \<Rightarrow> ('e, 'b, 'c, 'z) base_agent_scheme" where
  "log_event ev s = s\<lparr>trace := trace s @ [ev]\<rparr>"

definition next_observation_of ::
  "('e, 'o, 'a, 'm, 'b, 'c) world \<Rightarrow> 'o \<Rightarrow> 'o \<Rightarrow> dones \<Rightarrow> ('e, 'b, 'c, 'm) deep_agent
     \<Rightarrow> error + 'o \<times> ('e, 'b, 'c, 'm) deep_agent" where
  "next_observation_of w observation next_observation dn s =
     (if is_vector_env w then
        (let done_indices = where_true dn;
             not_done_indices = where_false dn;
             (e, fresh) = env_reset w (env s);
             s = log_event EnvReset (s\<lparr>env := e\<rparr>);
             observation = index_assign w observation done_indices fresh;
             observation = index_assign w observation not_done_indices next_observation
         in Inr (observation, s))
      else
        bind_err (truthy dn) (\<lambda>d.
          if d then (let (e, fresh) = env_reset w (env s)
                     in Inr (fresh, log_event EnvReset (s\<lparr>env := e\<rparr>)))
          else Inr (next_observation, s)))"

definition flush_episode :: "('e, 'b, 'c, 'm) deep_agent \<Rightarrow> ('e, 'b, 'c, 'm) deep_agent" where
  "flush_episode s =
     (if list_all (\<lambda>b. b) (episode_dones s)
      then (log_event ResetEpisodeLog (log_event (WriteLog (step s)) s))
             \<lparr>episode_dones := reset_episode_log (episode_dones s), episode := episode s + 1\<rparr>
      else s)"

definition check_callbacks ::
  "('e, 'o, 'a, 'm, 'b, 'c) world \<Rightarrow> ('e, 'b, 'c, 'm) deep_agent
     \<Rightarrow> ('e, 'b, 'c, 'm) deep_agent \<times> bool" where
  "check_callbacks w s =
     (case callbacks s of
        None \<Rightarrow> (s\<lparr>step := step s + 1\<rparr>, False)
      | Some cbs \<Rightarrow>
          (let (results, cbs') = run_callbacks (on_step w) cbs (step s);
               s = s\<lparr>callbacks := Some cbs'\<rparr>
           in if \<not> list_all (\<lambda>b. b) results then (s\<lparr>terminated := True\<rparr>, True)
              else (s\<lparr>step := step s + 1\<rparr>, False)))"

definition interact ::
  "('e, 'o, 'a, 'm, 'b, 'c) world \<Rightarrow> 'o \<Rightarrow> ('e, 'b, 'c, 'm) deep_agent
     \<Rightarrow> error + 'o \<times> ('e, 'b, 'c, 'm) deep_agent \<times> bool" where
  "interact w observation s =
     (let s = (if render s then log_event Render s else s);
          action = action_explorer w (model s) observation (step s);
          (e, next_observation, reward, dn) = env_step w (env s) action;
          s = log_event EnvStep (s\<lparr>env := e\<rparr>);
          s = s\<lparr>buffer := add_trajectory w (buffer s) observation action reward next_observation dn\<rparr>;
          done_indices = where_true dn
      in bind_err (next_observation_of w observation next_observation dn s) (\<lambda>(observation, s).
         bind_err (set_true done_indices (episode_dones s)) (\<lambda>flags.
           let s = flush_episode (s\<lparr>episode_dones := flags\<rparr>);
               (s, stop) = check_callbacks w s
           in Inr (observation, s, stop))))"

fun step_env_loop ::
  "('e, 'o, 'a, 'm, 'b, 'c) world \<Rightarrow> 'o \<Rightarrow> nat \<Rightarrow> ('e, 'b, 'c, 'm) deep_agent
     \<Rightarrow> error + 'o \<times> ('e, 'b, 'c, 'm) deep_agent" where
  "step_env_loop w observation 0 s = Inr (observation, s)"
| "step_env_loop w observation (Suc n) s =
     (case interact w observation s of
        Inl err \<Rightarrow> Inl err
      | Inr (observation', s', stop) \<Rightarrow>
          if stop then Inr (observation', s') else step_env_loop w observation' n s')"

definition step_env ::
  "('e, 'o, 'a, 'm, 'b, 'c) world \<Rightarrow> 'o \<Rightarrow> int \<Rightarrow> ('e, 'b, 'c, 'm) deep_agent
     \<Rightarrow> error + 'o \<times> ('e, 'b, 'c, 'm) deep_agent" where
  "step_env w observation num_steps s = step_env_loop w observation (nat num_steps) s"

partial_function (option) run_episodes ::
  "('e, 'o, 'a, 'm, 'b, 'c) world \<Rightarrow> int \<Rightarrow> 'o \<Rightarrow> ('e, 'b, 'c, 'm) deep_agent
     \<Rightarrow> (error + 'o \<times> ('e, 'b, 'c, 'm) deep_agent) option" where
  "run_episodes w end_episode observation s =
     (if episode s \<noteq> end_episode then
        (case step_env w observation 1 s of
           Inl err \<Rightarrow> Some (Inl err)
         | Inr (observation', s') \<Rightarrow> run_episodes w end_episode observation' s')
      else Some (Inr (observation, s)))"

definition train ::
  "('e, 'o, 'a, 'm, 'b, 'c) world \<Rightarrow> int \<Rightarrow> int \<Rightarrow> int \<Rightarrow> ('e, 'b, 'c, 'm) deep_agent
     \<Rightarrow> ('e, 'b, 'c, 'm) deep_agent" where
  "train w batch_size actor_epochs critic_epochs s =
     (let (m, b) = fit_impl w batch_size actor_epochs critic_epochs (model s) (buffer s)
      in log_event AddTrainLog (log_event Fit (s\<lparr>model := m, buffer := b\<rparr>)))"

definition interaction_phase ::
  "('e, 'o, 'a, 'm, 'b, 'c) world \<Rightarrow> train_frequency_type \<Rightarrow> int \<Rightarrow> int \<Rightarrow> int \<Rightarrow> nat \<Rightarrow> 'o
     \<Rightarrow> ('e, 'b, 'c, 'm) deep_agent
     \<Rightarrow> (error + 'o \<times> ('e, 'b, 'c, 'm) deep_agent \<times> bool) option" where
  "interaction_phase w kind count num_steps batch_size i observation s =
     (if i = 0 then
        Some (bind_err (step_env w observation batch_size s) (\<lambda>(ob, s'). Inr (ob, s', False)))
      else if kind = STEP then
        Some (bind_err (step_env w observation count s) (\<lambda>(ob, s'). Inr (ob, s', False)))
      else
        (let start_episode = episode s;
             end_episode = start_episode + count
         in case run_episodes w end_episode observation s of
              None \<Rightarrow> None
            | Some r \<Rightarrow> Some (bind_err r (\<lambda>(ob, s'). Inr (ob, s', step s' \<ge> num_steps)))))"

fun fit_loop ::
  "('e, 'o, 'a, 'm, 'b, 'c) world \<Rightarrow> train_frequency_type \<Rightarrow> int \<Rightarrow> int \<Rightarrow> int \<Rightarrow> int \<Rightarrow> int
     \<Rightarrow> nat list \<Rightarrow> 'o \<Rightarrow> ('e, 'b, 'c, 'm) deep_agent
     \<Rightarrow> (error + ('e, 'b, 'c, 'm) deep_agent) option" where
  "fit_loop w kind count num_steps batch_size actor_epochs critic_epochs [] observation s =
     Some (Inr s)"
| "fit_loop w kind count num_steps batch_size actor_epochs critic_epochs (i # rest) observation s =
     (case interaction_phase w kind count num_steps batch_size i observation s of
        None \<Rightarrow> None
      | Some (Inl err) \<Rightarrow> Some (Inl err)
      | Some (Inr (observation', s', stop)) \<Rightarrow>
          if stop \<or> terminated s' then Some (Inr s')
          else fit_loop w kind count num_steps batch_size actor_epochs critic_epochs rest
                 observation' (train w batch_size actor_epochs critic_epochs s'))"

definition fit ::
  "('e, 'o, 'a, 'm, 'b, 'c) world \<Rightarrow> int \<Rightarrow> int \<Rightarrow> int \<Rightarrow> int \<Rightarrow> string \<times> int
     \<Rightarrow> ('e, 'b, 'c, 'm) deep_agent \<Rightarrow> (error + ('e, 'b, 'c, 'm) deep_agent) option" where
  "fit w num_steps batch_size actor_epochs critic_epochs train_frequency s =
     (case normalise_frequency train_frequency num_steps of
        Inl err \<Rightarrow> Some (Inl err)
      | Inr (kind, count, num_steps) \<Rightarrow>
          (let (e, observation) = env_reset w (env s);
               s = log_event EnvReset (s\<lparr>env := e\<rparr>)
           in fit_loop w kind count num_steps batch_size actor_epochs critic_epochs
                [0..<nat num_steps] observation s))"

section \<open>The evolution orchestrator\<close>

text \<open>
  \<open>BaseEvolutionAgent\<close>. Its constructor sets no attribute \<open>done\<close>; only
  \<open>step_env\<close> assigns it, so the attribute is optional here (\<open>None\<close>: not set). The
  population is \<open>None\<close> until \<open>fit\<close> initialises it.
\<close>

record ('e, 'b, 'c, 'u, 'p) evolution_agent = "('e, 'b, 'c) base_agent" +
  updater :: 'u
  population :: "'p option"
  done_attr :: "bool option"

text \<open>
  The collaborators of \<open>BaseEvolutionAgent\<close>: the vectorised environment stepped with
  the population, the buffer (the observations sampled from the observation space are
  left out), the callbacks' hook, the updater's population initialiser, the maximum
  reward of the buffer (\<open>np.max\<close> raises on an empty array), the \<open>_fit\<close> of the
  concrete agent, and \<open>updater.population\<close>.
\<close>

record ('e, 'b, 'c, 'u, 'p) evolution_world =
  population_step :: "'e \<Rightarrow> 'p option \<Rightarrow> 'e \<times> tensor \<times> dones"
  store_trajectory :: "'b \<Rightarrow> 'p option \<Rightarrow> tensor \<Rightarrow> dones \<Rightarrow> 'b"
  callback_hook :: "'c \<Rightarrow> int \<Rightarrow> bool \<times> 'c"
  initialize_population :: "'u \<Rightarrow> error + 'u \<times> 'p"
  max_reward :: "'b \<Rightarrow> error + real"
  evolve :: "'u \<Rightarrow> 'b \<Rightarrow> 'u \<times> 'b"
  updater_population :: "'u \<Rightarrow> 'p"

text \<open>The body of the loop of \<open>BaseEvolutionAgent.step_env\<close>.\<close>

definition evolution_interact ::
  "('e, 'b, 'c, 'u, 'p) evolution_world \<Rightarrow> ('e, 'b, 'c, 'u, 'p) evolution_agent
     \<Rightarrow> ('e, 'b, 'c, 'u, 'p) evolution_agent \<times> bool" where
  "evolution_interact w s =
     (let (e, rewards, dn) = population_step w (env s) (population s);
          s = log_event EnvStep (s\<lparr>env := e\<rparr>);
          s = s\<lparr>buffer := store_trajectory w (buffer s) (population s) rewards dn\<rparr>
      in case callbacks s of
           None \<Rightarrow> (s\<lparr>step := step s + 1\<rparr>, False)
         | Some cbs \<Rightarrow>
             (let (results, cbs') = run_callbacks (callback_hook w) cbs (step s);
                  s = s\<lparr>callbacks := Some cbs'\<rparr>
              in if \<not> list_all (\<lambda>b. b) results then (s\<lparr>done_attr := Some True\<rparr>, True)
                 else (s\<lparr>step := step s + 1\<rparr>, False)))"

fun evolution_step_env_loop ::
  "('e, 'b, 'c, 'u, 'p) evolution_world \<Rightarrow> nat \<Rightarrow> ('e, 'b, 'c, 'u, 'p) evolution_agent
     \<Rightarrow> ('e, 'b, 'c, 'u, 'p) evolution_agent" where
  "evolution_step_env_loop w 0 s = s"
| "evolution_step_env_loop w (Suc n) s =
     (case evolution_interact w s of
        (s', stop) \<Rightarrow> if stop then s' else evolution_step_env_loop w n s')"

definition evolution_step_env ::
  "('e, 'b, 'c, 'u, 'p) evolution_world \<Rightarrow> int \<Rightarrow> ('e, 'b, 'c, 'u, 'p) evolution_agent
     \<Rightarrow> ('e, 'b, 'c, 'u, 'p) evolution_agent" where
  "evolution_step_env w num_steps s = evolution_step_env_loop w (nat num_steps) s"

partial_function (option) evolution_run_episodes ::
  "('e, 'b, 'c, 'u, 'p) evolution_world \<Rightarrow> int \<Rightarrow> ('e, 'b, 'c, 'u, 'p) evolution_agent
     \<Rightarrow> ('e, 'b, 'c, 'u, 'p) evolution_agent option" where
  "evolution_run_episodes w end_episode s =
     (if episode s \<noteq> end_episode
      then evolution_run_episodes w end_episode (evolution_step_env w 1 s)
      else Some s)"

definition evaluate_agent ::
  "('e, 'b, 'c, 'u, 'p) evolution_world \<Rightarrow> ('e, 'b, 'c, 'u, 'p) evolution_agent
     \<Rightarrow> error + ('e, 'b, 'c, 'u, 'p) evolution_agent" where
  "evaluate_agent w s =
     bind_err (max_reward w (buffer s)) (\<lambda>r.
       Inr ((log_event ResetEpisodeLog (log_event (WriteLog (step s)) s))
              \<lparr>episode_dones := reset_episode_log (episode_dones s)\<rparr>))"

definition evolution_train ::
  "('e, 'b, 'c, 'u, 'p) evolution_world \<Rightarrow> ('e, 'b, 'c, 'u, 'p) evolution_agent
     \<Rightarrow> ('e, 'b, 'c, 'u, 'p) evolution_agent" where
  "evolution_train w s =
     (let (u, b) = evolve w (updater s) (buffer s);
          s = log_event Fit (s\<lparr>updater := u, buffer := b\<rparr>);
          s = s\<lparr>population := Some (updater_population w (updater s))\<rparr>
      in log_event AddTrainLog s)"

definition evolution_interaction_phase ::
  "('e, 'b, 'c, 'u, 'p) evolution_world \<Rightarrow> train_frequency_type \<Rightarrow> int \<Rightarrow> int
     \<Rightarrow> ('e, 'b, 'c, 'u, 'p) evolution_agent
     \<Rightarrow> (('e, 'b, 'c, 'u, 'p) evolution_agent \<times> bool) option" where
  "evolution_interaction_phase w kind count num_steps s =
     (if kind = STEP then Some (evolution_step_env w count s, False)
      else
        (let start_episode = episode s;
             end_episode = start_episode + count
         in case evolution_run_episodes w end_episode s of
              None \<Rightarrow> None
            | Some s' \<Rightarrow> Some (s', step s' \<ge> num_steps)))"

fun evolution_fit_loop ::
  "('e, 'b, 'c, 'u, 'p) evolution_world \<Rightarrow> train_frequency_type \<Rightarrow> int \<Rightarrow> int \<Rightarrow> nat list
     \<Rightarrow> ('e, 'b, 'c, 'u, 'p) evolution_agent
     \<Rightarrow> (error + ('e, 'b, 'c, 'u, 'p) evolution_agent) option" where
  "evolution_fit_loop w kind count num_steps [] s = Some (Inr s)"
| "evolution_fit_loop w kind count num_steps (i # rest) s =
     (case evolution_interaction_phase w kind count num_steps s of
        None \<Rightarrow> None
      | Some (s', stop) \<Rightarrow>
          if stop then Some (Inr s')
          else (case evaluate_agent w s' of
                  Inl err \<Rightarrow> Some (Inl err)
                | Inr s'' \<Rightarrow>
                    evolution_fit_loop w kind count num_steps rest (evolution_train w s'')))"

definition evolution_fit ::
  "('e, 'b, 'c, 'u, 'p) evolution_world \<Rightarrow> int \<Rightarrow> string \<times> int
     \<Rightarrow> ('e, 'b, 'c, 'u, 'p) evolution_agent
     \<Rightarrow> (error + ('e, 'b, 'c, 'u, 'p) evolution_agent) option" where
  "evolution_fit w num_steps train_frequency s =
     (case normalise_frequency train_frequency num_steps of
        Inl err \<Rightarrow> Some (Inl err)
      | Inr (kind, count, num_steps) \<Rightarrow>
          (case initialize_population w (updater s) of
             Inl err \<Rightarrow> Some (Inl err)
           | Inr (u, p) \<Rightarrow>
               evolution_fit_loop w kind count num_steps [0..<nat num_steps]
                 (s\<lparr>updater := u, population := Some p\<rparr>)))"

section \<open>Observations on a run\<close>

text \<open>
  How often the trace of an agent records a call of \<open>env.step\<close>, of \<open>_fit\<close>, of
  \<open>write_log\<close> and of \<open>reset_episode_log\<close>.
\<close>

definition env_steps :: "('e, 'b, 'c, 'z) base_agent_scheme \<Rightarrow> nat" where
  "env_steps s = length (filter (\<lambda>ev. ev = EnvStep) (trace s))"

definition fits :: "('e, 'b, 'c, 'z) base_agent_scheme \<Rightarrow> nat" where
  "fits s = length (filter (\<lambda>ev. ev = Fit) (trace s))"

definition writes :: "('e, 'b, 'c, 'z) base_agent_scheme \<Rightarrow> nat" where
  "writes s = length (filter (\<lambda>ev. case ev of WriteLog n \<Rightarrow> True | _ \<Rightarrow> False) (trace s))"

definition resets :: "('e, 'b, 'c, 'z) base_agent_scheme \<Rightarrow> nat" where
  "resets s = length (filter (\<lambda>ev. ev = ResetEpisodeLog) (trace s))"

text \<open>
  The done flags that \<open>env.step\<close> returns in the interaction that starts from this
  observation and this agent, and the mask after \<open>episode_dones[done_indices] = True\<close>.
\<close>

definition step_dones ::
  "('e, 'o, 'a, 'm, 'b, 'c) world \<Rightarrow> 'o \<Rightarrow> ('e, 'b, 'c, 'm) deep_agent \<Rightarrow> dones" where
  "step_dones w observation s =
     (let (e, next_observation, reward, dn) =
            env_step w (env s) (action_explorer w (model s) observation (step s))
      in dn)"

definition updated_mask ::
  "('e, 'o, 'a, 'm, 'b, 'c) world \<Rightarrow> 'o \<Rightarrow> ('e, 'b, 'c, 'm) deep_agent \<Rightarrow> error + bool list" where
  "updated_mask w observation s =
     set_true (where_true (step_dones w observation s)) (episode_dones s)"

text \<open>
  What a run of \<open>fit\<close> leaves behind: nothing when it does not return, the exception
  when it raises, and otherwise the number of \<open>_fit\<close> calls and the episode counter.
\<close>

definition run_summary ::
  "(error + ('e, 'b, 'c, 'z) base_agent_scheme) option \<Rightarrow> (error + nat \<times> int) option" where
  "run_summary r =
     (case r of
        None \<Rightarrow> None
      | Some (Inl err) \<Rightarrow> Some (Inl err)
      | Some (Inr s) \<Rightarrow> Some (Inr (fits s, episode s)))"

section \<open>Concrete models\<close>













section \<open>Concrete environments and agents\<close>

text \<open>
  A single, non-vectorised environment whose episodes end after exactly three steps: its
  state, which is also the observation, counts the steps taken in the current episode.
  The explorer, the buffer and \<open>_fit\<close> are arbitrary; no callback ever vetoes.
  \<open>single_env_state\<close> holds of the agents that run in it without callbacks, and
  \<open>fresh_agent\<close> is an agent right after its construction.
\<close>

definition episodic_world ::
  "('m \<Rightarrow> nat \<Rightarrow> int \<Rightarrow> 'a) \<Rightarrow> ('b \<Rightarrow> nat \<Rightarrow> 'a \<Rightarrow> tensor \<Rightarrow> nat \<Rightarrow> dones \<Rightarrow> 'b)
     \<Rightarrow> (int \<Rightarrow> int \<Rightarrow> int \<Rightarrow> 'm \<Rightarrow> 'b \<Rightarrow> 'm \<times> 'b) \<Rightarrow> (nat, nat, 'a, 'm, 'b, unit) world" where
  "episodic_world explorer store fit_method =
     \<lparr>is_vector_env = False,
      env_step = (\<lambda>e a. (e + 1, e + 1, [1], Scalar (3 \<le> e + 1))),
      env_reset = (\<lambda>e. (0, 0)),
      action_explorer = explorer,
      add_trajectory = store,
      index_assign = (\<lambda>target indices source. target),
      on_step = (\<lambda>c n. (True, c)),
      fit_impl = fit_method\<rparr>"

definition single_env_state :: "(nat, 'b, unit, 'm) deep_agent \<Rightarrow> bool" where
  "single_env_state s \<longleftrightarrow>
     callbacks s = None \<and> \<not> render s \<and> \<not> terminated s \<and> episode_dones s = [False] \<and> env s < 3"

definition fresh_agent :: "(nat, nat, unit, unit) deep_agent" where
  "fresh_agent =
     \<lparr>env = 0, buffer = 0, callbacks = None, step = 0, episode = 0, episode_dones = [False],
      trace = [], model = (), render = False, terminated = False\<rparr>"

definition unit_world :: "(nat, nat, unit, unit, nat, unit) world" where
  "unit_world =
     episodic_world (\<lambda>m ob n. ()) (\<lambda>b ob a r nob dn. b + 1) (\<lambda>bs ae ce m b. (m, b))"

text \<open>
  The same environment and agent with one callback that vetoes at every step, and an
  evolution agent with such a callback.
\<close>

definition veto_world :: "(nat, nat, unit, unit, nat, unit) world" where
  "veto_world = unit_world\<lparr>on_step := (\<lambda>c n. (False, c))\<rparr>"

definition veto_agent :: "(nat, nat, unit, unit) deep_agent" where
  "veto_agent = fresh_agent\<lparr>callbacks := Some [()]\<rparr>"

definition veto_evolution_world :: "(unit, nat, unit, unit, unit) evolution_world" where
  "veto_evolution_world =
     \<lparr>population_step = (\<lambda>e p. ((), [1], Batch [False])),
      store_trajectory = (\<lambda>b p r dn. b + 1),
      callback_hook = (\<lambda>c n. (False, c)),
      initialize_population = (\<lambda>u. Inr (u, ())),
      max_reward = (\<lambda>b. Inr 1),
      evolve = (\<lambda>u b. (u, b)),
      updater_population = (\<lambda>u. ())\<rparr>"

definition veto_evolution_agent :: "(unit, nat, unit, unit, unit) evolution_agent" where
  "veto_evolution_agent =
     \<lparr>env = (), buffer = 0, callbacks = Some [()], step = 0, episode = 0,
      episode_dones = [False], trace = [], updater = (), population = None, done_attr = None\<rparr>"

section \<open>Properties of the soft-Q target\<close>







section \<open>The choice of the next-state Q-value\<close>







section \<open>The optimisation step and the parameters it touches\<close>

















section \<open>Properties of the deep-agent orchestrator\<close>

lemmas agent_counts = env_steps_def fits_def writes_def resets_def

lemma next_observation_of_effects:
  assumes "next_observation_of w ob nob dn s = Inr (ob', s')"
  shows "step s' = step s" "episode s' = episode s" "terminated s' = terminated s"
    "callbacks s' = callbacks s" "episode_dones s' = episode_dones s"
    "env_steps s' = env_steps s" "fits s' = fits s" "writes s' = writes s" "resets s' = resets s"
  using assms
  by (auto simp add: next_observation_of_def log_event_def bind_err_def Let_def agent_counts
      split: prod.splits sum.splits if_splits)

lemma flush_episode_effects:
  "step (flush_episode s) = step s" "terminated (flush_episode s) = terminated s"
  "callbacks (flush_episode s) = callbacks s"
  "env_steps (flush_episode s) = env_steps s" "fits (flush_episode s) = fits s"
  "list_all (\<lambda>b. b) (episode_dones s) \<Longrightarrow>
     episode (flush_episode s) = episode s + 1 \<and> writes (flush_episode s) = writes s + 1
     \<and> resets (flush_episode s) = resets s + 1
     \<and> episode_dones (flush_episode s) = reset_episode_log (episode_dones s)
     \<and> trace (flush_episode s) = trace s @ [WriteLog (step s), ResetEpisodeLog]"
  "\<not> list_all (\<lambda>b. b) (episode_dones s) \<Longrightarrow> flush_episode s = s"
  by (simp_all add: flush_episode_def log_event_def agent_counts)

lemma check_callbacks_effects:
  assumes "check_callbacks w s = (s', stop)"
  shows "episode s' = episode s" "episode_dones s' = episode_dones s" "trace s' = trace s"
    "stop \<Longrightarrow> terminated s' \<and> step s' = step s"
    "\<not> stop \<Longrightarrow> terminated s' = terminated s \<and> step s' = step s + 1"
    "stop \<longleftrightarrow> (\<exists>cbs. callbacks s = Some cbs
        \<and> \<not> list_all (\<lambda>b. b) (fst (run_callbacks (on_step w) cbs (step s))))"
  using assms
  by (auto simp add: check_callbacks_def Let_def split: option.splits prod.splits if_splits)

lemma interact_decompose:
  assumes "interact w ob s = Inr (ob', s', stop)"
  obtains s0 s1 flags where
    "trace s0 = trace s @ (if render s then [Render] else []) @ [EnvStep]"
    "step s0 = step s" "episode s0 = episode s" "terminated s0 = terminated s"
    "callbacks s0 = callbacks s" "episode_dones s0 = episode_dones s"
    "next_observation_of w ob
       (fst (snd (env_step w (env s) (action_explorer w (model s) ob (step s)))))
       (step_dones w ob s) s0 = Inr (ob', s1)"
    "updated_mask w ob s = Inr flags"
    "check_callbacks w (flush_episode (s1\<lparr>episode_dones := flags\<rparr>)) = (s', stop)"
proof -
  obtain e nob reward dn where es:
    "env_step w (env s) (action_explorer w (model s) ob (step s)) = (e, nob, reward, dn)"
    by (metis prod_cases4)
  define sr where "sr = (if render s then log_event Render s else s)"
  define s0 where "s0 = (log_event EnvStep (sr\<lparr>env := e\<rparr>))
      \<lparr>buffer := add_trajectory w (buffer (log_event EnvStep (sr\<lparr>env := e\<rparr>))) ob
          (action_explorer w (model s) ob (step s)) reward nob dn\<rparr>"
  have sr: "model sr = model s" "step sr = step s" "env sr = env s"
    by (simp_all add: sr_def log_event_def)
  have dn: "step_dones w ob s = dn" by (simp add: step_dones_def es)
  from assms obtain s1 flags where
    a: "next_observation_of w ob nob dn s0 = Inr (ob', s1)"
    and b: "set_true (where_true dn) (episode_dones s1) = Inr flags"
    and c: "check_callbacks w (flush_episode (s1\<lparr>episode_dones := flags\<rparr>)) = (s', stop)"
    unfolding interact_def Let_def sr_def [symmetric] sr es prod.case s0_def [symmetric]
    by (auto simp add: bind_err_def split: sum.splits prod.splits)
  have "episode_dones s1 = episode_dones s"
    using next_observation_of_effects(5) [OF a] by (simp add: s0_def sr_def log_event_def)
  with b have b': "updated_mask w ob s = Inr flags" by (simp add: updated_mask_def dn)
  show thesis
  proof (rule that [of s0 s1 flags])
    show "trace s0 = trace s @ (if render s then [Render] else []) @ [EnvStep]"
      by (simp add: s0_def sr_def log_event_def)
    show "next_observation_of w ob
       (fst (snd (env_step w (env s) (action_explorer w (model s) ob (step s)))))
       (step_dones w ob s) s0 = Inr (ob', s1)"
      using a by (simp add: es dn)
  qed (simp_all add: s0_def sr_def log_event_def b' c)
qed


lemma interact_effects:
  assumes "interact w ob s = Inr (ob', s', stop)"
  shows "env_steps s' = env_steps s + 1" "fits s' = fits s"
    "stop \<Longrightarrow> terminated s' \<and> step s' = step s"
    "\<not> stop \<Longrightarrow> terminated s' = terminated s \<and> step s' = step s + 1"
    "\<exists>flags. updated_mask w ob s = Inr flags
       \<and> (if list_all (\<lambda>b. b) flags
           then episode s' = episode s + 1 \<and> writes s' = writes s + 1
                \<and> resets s' = resets s + 1 \<and> episode_dones s' = reset_episode_log flags
           else episode s' = episode s \<and> writes s' = writes s
                \<and> resets s' = resets s \<and> episode_dones s' = flags)"
proof -
  from assms obtain s0 s1 flags where
    t0: "trace s0 = trace s @ (if render s then [Render] else []) @ [EnvStep]"
    and f0: "step s0 = step s" "episode s0 = episode s" "terminated s0 = terminated s"
      "callbacks s0 = callbacks s" "episode_dones s0 = episode_dones s"
    and no: "next_observation_of w ob
       (fst (snd (env_step w (env s) (action_explorer w (model s) ob (step s)))))
       (step_dones w ob s) s0 = Inr (ob', s1)"
    and um: "updated_mask w ob s = Inr flags"
    and cc: "check_callbacks w (flush_episode (s1\<lparr>episode_dones := flags\<rparr>)) = (s', stop)"
    by (rule interact_decompose)
  let ?s2 = "s1\<lparr>episode_dones := flags\<rparr>"
  note n1 = next_observation_of_effects [OF no]
  have c0: "env_steps s0 = env_steps s + 1" "fits s0 = fits s" "writes s0 = writes s"
    "resets s0 = resets s"
    by (simp_all add: agent_counts t0)
  have c2: "env_steps ?s2 = env_steps s + 1" "fits ?s2 = fits s" "writes ?s2 = writes s"
    "resets ?s2 = resets s" "step ?s2 = step s" "episode ?s2 = episode s"
    "terminated ?s2 = terminated s" "episode_dones ?s2 = flags"
    using n1 c0 f0 by (simp_all add: agent_counts)
  note ce = check_callbacks_effects [OF cc]
  have tr: "env_steps s' = env_steps (flush_episode ?s2)" "fits s' = fits (flush_episode ?s2)"
    "writes s' = writes (flush_episode ?s2)" "resets s' = resets (flush_episode ?s2)"
    using ce(3) by (simp_all add: agent_counts)
  show "env_steps s' = env_steps s + 1" "fits s' = fits s"
    using tr c2 by (simp_all add: flush_episode_effects)
  show "stop \<Longrightarrow> terminated s' \<and> step s' = step s"
    using ce(4) c2 by (simp add: flush_episode_effects)
  show "\<not> stop \<Longrightarrow> terminated s' = terminated s \<and> step s' = step s + 1"
    using ce(5) c2 by (simp add: flush_episode_effects)
  show "\<exists>flags. updated_mask w ob s = Inr flags
       \<and> (if list_all (\<lambda>b. b) flags
           then episode s' = episode s + 1 \<and> writes s' = writes s + 1
                \<and> resets s' = resets s + 1 \<and> episode_dones s' = reset_episode_log flags
           else episode s' = episode s \<and> writes s' = writes s
                \<and> resets s' = resets s \<and> episode_dones s' = flags)"
  proof (intro exI conjI, rule um)
    show "if list_all (\<lambda>b. b) flags
           then episode s' = episode s + 1 \<and> writes s' = writes s + 1
                \<and> resets s' = resets s + 1 \<and> episode_dones s' = reset_episode_log flags
           else episode s' = episode s \<and> writes s' = writes s
                \<and> resets s' = resets s \<and> episode_dones s' = flags"
    proof (cases "list_all (\<lambda>b. b) flags")
      case True
      then have "list_all (\<lambda>b. b) (episode_dones ?s2)" by simp
      from flush_episode_effects(6) [OF this] True show ?thesis
        using ce(1,2) tr c2 by simp
    next
      case False
      then have "\<not> list_all (\<lambda>b. b) (episode_dones ?s2)" by simp
      from flush_episode_effects(7) [OF this] False show ?thesis
        using ce(1,2) tr c2 by simp
    qed
  qed
qed


lemma interact_summary:
  assumes "interact w ob s = Inr (ob', s', stop)"
  shows "episode s \<le> episode s'" "episode s' \<le> episode s + 1"
    "int (writes s') - int (writes s) = episode s' - episode s"
    "terminated s \<Longrightarrow> terminated s'"
proof -
  from interact_effects(5) [OF assms] obtain flags where
    f: "if list_all (\<lambda>b. b) flags
           then episode s' = episode s + 1 \<and> writes s' = writes s + 1
                \<and> resets s' = resets s + 1 \<and> episode_dones s' = reset_episode_log flags
           else episode s' = episode s \<and> writes s' = writes s
                \<and> resets s' = resets s \<and> episode_dones s' = flags"
    by blast
  then show "episode s \<le> episode s'" "episode s' \<le> episode s + 1"
    "int (writes s') - int (writes s) = episode s' - episode s"
    by (simp_all split: if_splits)
  show "terminated s \<Longrightarrow> terminated s'"
    using interact_effects(3,4) [OF assms] by (cases stop) simp_all
qed

lemma step_env_loop_effects:
  assumes "step_env_loop w ob n s = Inr (ob', s')"
  shows "fits s' = fits s \<and> (terminated s \<longrightarrow> terminated s')
    \<and> (\<not> terminated s' \<longrightarrow> env_steps s' = env_steps s + n \<and> step s' = step s + int n)
    \<and> int (writes s') - int (writes s) = episode s' - episode s
    \<and> episode s \<le> episode s' \<and> episode s' \<le> episode s + int n"
  using assms
proof (induction n arbitrary: ob s)
  case 0
  then show ?case by simp
next
  case (Suc n)
  from Suc.prems obtain ob1 s1 stop where
    i: "interact w ob s = Inr (ob1, s1, stop)"
    and r: "if stop then (ob', s') = (ob1, s1) else step_env_loop w ob1 n s1 = Inr (ob', s')"
    by (auto split: sum.splits prod.splits if_splits)
  note e = interact_effects(1-4) [OF i] and m = interact_summary [OF i]
  show ?case
  proof (cases stop)
    case True
    with r have "s' = s1" by simp
    then show ?thesis using e m True by simp
  next
    case False
    with r have "step_env_loop w ob1 n s1 = Inr (ob', s')" by simp
    from Suc.IH [OF this] show ?thesis using e m False by auto
  qed
qed

lemma step_env_effects:
  assumes "step_env w ob k s = Inr (ob', s')"
  shows "fits s' = fits s" "terminated s \<Longrightarrow> terminated s'"
    "\<not> terminated s' \<Longrightarrow> env_steps s' = env_steps s + nat k \<and> step s' = step s + int (nat k)"
    "int (writes s') - int (writes s) = episode s' - episode s"
    "episode s \<le> episode s'" "episode s' \<le> episode s + int (nat k)"
  using step_env_loop_effects [of w ob "nat k" s ob' s'] assms
  by (simp_all add: step_env_def)


lemma train_effects:
  "fits (train w bs ae ce s) = fits s + 1" "env_steps (train w bs ae ce s) = env_steps s"
  "terminated (train w bs ae ce s) = terminated s" "step (train w bs ae ce s) = step s"
  "episode (train w bs ae ce s) = episode s" "writes (train w bs ae ce s) = writes s"
  "trace (train w bs ae ce s) = trace s @ [Fit, AddTrainLog]"
  by (simp_all add: train_def log_event_def agent_counts split: prod.splits)

lemma lower_examples: "lower ''step'' = ''step''" "lower ''episode'' = ''episode''"
  by (simp_all add: lower_def lower_char_def)

lemma normalise_frequency_step:
  "n \<noteq> 0 \<Longrightarrow> normalise_frequency (''step'', n) num_steps = Inr (STEP, n, num_steps div n)"
  by (simp add: normalise_frequency_def lower_examples TrainFrequencyType_def bind_err_def)

lemma normalise_frequency_episode:
  "normalise_frequency (''episode'', n) num_steps = Inr (EPISODE, n, num_steps)"
  by (simp add: normalise_frequency_def lower_examples TrainFrequencyType_def bind_err_def)

text \<open>
  C3. In one interaction of \<open>BaseDeepAgent.step_env\<close>, let \<open>flags\<close> be the
  episode-done mask after \<open>episode_dones[done_indices] = True\<close>. If every entry of
  \<open>flags\<close> is true, \<open>write_log\<close> and \<open>reset_episode_log\<close> are each called once
  more and the episode counter grows by exactly 1; if some entry is false, neither is
  called, the episode counter keeps its value and the mask is \<open>flags\<close>.
\<close>

theorem episode_flush_iff_all_done:
  assumes "interact w observation s = Inr (observation', s', stop)"
  shows "\<exists>flags. updated_mask w observation s = Inr flags
     \<and> (list_all (\<lambda>b. b) flags \<longrightarrow>
          writes s' = writes s + 1 \<and> resets s' = resets s + 1 \<and> episode s' = episode s + 1)
     \<and> (\<not> list_all (\<lambda>b. b) flags \<longrightarrow>
          writes s' = writes s \<and> resets s' = resets s \<and> episode s' = episode s
          \<and> episode_dones s' = flags)"
  using interact_effects(5) [OF assms] by (auto split: if_splits)

lemma fit_unfold:
  assumes "normalise_frequency train_frequency num_steps = Inr (kind, count, n)"
    and "env_reset w (env s) = (e, ob)"
  shows "fit w num_steps batch_size ae ce train_frequency s =
     fit_loop w kind count n batch_size ae ce [0..<nat n] ob (log_event EnvReset (s\<lparr>env := e\<rparr>))"
  using assms by (simp add: fit_def)

lemma fit_loop_first:
  assumes "step_env w ob batch_size s = Inr (ob1, s1)"
  shows "fit_loop w kind count n batch_size ae ce (0 # rest) ob s =
     (if terminated s1 then Some (Inr s1)
      else fit_loop w kind count n batch_size ae ce rest ob1 (train w batch_size ae ce s1))"
  using assms by (simp add: interaction_phase_def bind_err_def)

text \<open>
  C4. Let \<open>fit\<close> be called with a valid train frequency of either kind and any count,
  and let its loop have at least one iteration. If the warm-up call
  \<open>step_env(observation, batch_size)\<close> returns with the termination flag unset (no
  callback vetoed), it made exactly \<open>batch_size\<close> calls of \<open>env.step\<close> and none of
  \<open>_fit\<close>, and \<open>fit\<close> goes on with the first call of \<open>_fit\<close> and then the
  remaining iterations.
\<close>

theorem fit_warmup:
  assumes "normalise_frequency train_frequency num_steps = Inr (kind, count, n)"
    and "0 < n"
    and "env_reset w (env s) = (e, ob)"
    and "step_env w ob batch_size (log_event EnvReset (s\<lparr>env := e\<rparr>)) = Inr (ob1, s1)"
    and "\<not> terminated s1"
  shows "env_steps s1 = env_steps s + nat batch_size \<and> fits s1 = fits s
     \<and> fit w num_steps batch_size ae ce train_frequency s =
         fit_loop w kind count n batch_size ae ce [1..<nat n] ob1 (train w batch_size ae ce s1)
     \<and> trace (train w batch_size ae ce s1) = trace s1 @ [Fit, AddTrainLog]"
proof -
  let ?s0 = "log_event EnvReset (s\<lparr>env := e\<rparr>)"
  have c0: "env_steps ?s0 = env_steps s" "fits ?s0 = fits s"
    by (simp_all add: log_event_def agent_counts)
  note se = step_env_effects [OF assms(4)]
  have "[0..<nat n] = 0 # [1..<nat n]" using assms(2) by (simp add: upt_conv_Cons)
  then have "fit w num_steps batch_size ae ce train_frequency s =
      fit_loop w kind count n batch_size ae ce (0 # [1..<nat n]) ob ?s0"
    using fit_unfold [OF assms(1,3)] by simp
  also have "\<dots> = fit_loop w kind count n batch_size ae ce [1..<nat n] ob1
      (train w batch_size ae ce s1)"
    using fit_loop_first [OF assms(4)] assms(5) by simp
  finally show ?thesis using se(1) se(3) [OF assms(5)] c0 by (simp add: train_effects)
qed


lemma fit_loop_episode_unfold:
  assumes "0 < i"
  shows "fit_loop w EPISODE n N bs ae ce (i # rest) ob s =
     (case run_episodes w (episode s + n) ob s of
        None \<Rightarrow> None
      | Some (Inl err) \<Rightarrow> Some (Inl err)
      | Some (Inr (ob1, s1)) \<Rightarrow>
          if N \<le> step s1 \<or> terminated s1 then Some (Inr s1)
          else fit_loop w EPISODE n N bs ae ce rest ob1 (train w bs ae ce s1))"
  using assms
  by (simp add: interaction_phase_def bind_err_def Let_def split: option.splits sum.splits)





section \<open>Runs in the three-step environment\<close>

lemma interact_episodic:
  assumes "single_env_state s"
  shows "\<exists>ob' s'. interact (episodic_world ex st fi) ob s = Inr (ob', s', False)
     \<and> single_env_state s' \<and> env s' = (env s + 1) mod 3
     \<and> episode s' = episode s + int ((env s + 1) div 3) \<and> step s' = step s + 1
     \<and> fits s' = fits s \<and> env_steps s' = env_steps s + 1"
proof (cases "3 \<le> env s + 1")
  case True
  with assms have e: "env s = 2" by (simp add: single_env_state_def)
  show ?thesis
    using assms e
    by (simp add: interact_def episodic_world_def single_env_state_def Let_def bind_err_def
        next_observation_of_def set_true_def flush_episode_def check_callbacks_def log_event_def
        reset_episode_log_def fits_def env_steps_def)
next
  case False
  then have "(env s + 1) mod 3 = env s + 1" "(env s + 1) div 3 = 0" by simp_all
  then show ?thesis
    using assms False
    by (simp add: interact_def episodic_world_def single_env_state_def Let_def bind_err_def
        next_observation_of_def set_true_def flush_episode_def check_callbacks_def log_event_def
        reset_episode_log_def fits_def env_steps_def)
qed

lemma step_env_loop_episodic:
  assumes "single_env_state s"
  shows "\<exists>ob' s'. step_env_loop (episodic_world ex st fi) ob n s = Inr (ob', s')
     \<and> single_env_state s' \<and> env s' = (env s + n) mod 3
     \<and> episode s' = episode s + int ((env s + n) div 3) \<and> step s' = step s + int n
     \<and> fits s' = fits s \<and> env_steps s' = env_steps s + n"
  using assms
proof (induction n arbitrary: ob s)
  case 0
  then show ?case by (simp add: single_env_state_def)
next
  case (Suc n)
  from interact_episodic [OF Suc.prems, of ex st fi ob] obtain ob1 s1 where
    i: "interact (episodic_world ex st fi) ob s = Inr (ob1, s1, False)"
    and s1: "single_env_state s1" "env s1 = (env s + 1) mod 3"
      "episode s1 = episode s + int ((env s + 1) div 3)" "step s1 = step s + 1"
      "fits s1 = fits s" "env_steps s1 = env_steps s + 1"
    by blast
  from Suc.IH [OF s1(1), of ob1] obtain ob' s' where
    r: "step_env_loop (episodic_world ex st fi) ob1 n s1 = Inr (ob', s')"
    and s': "single_env_state s'" "env s' = (env s1 + n) mod 3"
      "episode s' = episode s1 + int ((env s1 + n) div 3)" "step s' = step s1 + int n"
      "fits s' = fits s1" "env_steps s' = env_steps s1 + n"
    by blast
  have m: "((env s + 1) mod 3 + n) mod 3 = (env s + Suc n) mod 3"
    by presburger
  have d: "(env s + 1) div 3 + ((env s + 1) mod 3 + n) div 3 = (env s + Suc n) div 3"
    by presburger
  have "int ((env s + 1) div 3) + int (((env s + 1) mod 3 + n) div 3) = int ((env s + Suc n) div 3)"
    using d by (metis of_nat_add)
  then show ?case
    using i r s1 s' m by (intro exI [of _ ob'] exI [of _ s']) simp
qed

lemma run_episodes_unfold:
  assumes "episode s \<noteq> end_episode" "step_env w ob 1 s = Inr (ob1, s1)"
  shows "run_episodes w end_episode ob s = run_episodes w end_episode ob1 s1"
  using assms by (subst run_episodes.simps) simp

lemma run_episodes_stop:
  "episode s = end_episode \<Longrightarrow> run_episodes w end_episode ob s = Some (Inr (ob, s))"
  by (subst run_episodes.simps) simp

lemma step_env_episodic:
  assumes "single_env_state s" "0 \<le> k"
  shows "\<exists>ob' s'. step_env (episodic_world ex st fi) ob k s = Inr (ob', s')
     \<and> single_env_state s' \<and> env s' = (env s + nat k) mod 3
     \<and> episode s' = episode s + int ((env s + nat k) div 3) \<and> step s' = step s + k
     \<and> fits s' = fits s \<and> env_steps s' = env_steps s + nat k"
  using step_env_loop_episodic [OF assms(1), of ex st fi ob "nat k"] assms(2)
  by (simp add: step_env_def)

lemma run_episodes_episodic:
  assumes "single_env_state s" "episode s \<le> end_episode"
  shows "\<exists>ob' s'. run_episodes (episodic_world ex st fi) end_episode ob s = Some (Inr (ob', s'))
     \<and> single_env_state s' \<and> episode s' = end_episode \<and> fits s' = fits s
     \<and> step s' = step s
          + (if end_episode = episode s then 0 else 3 * (end_episode - episode s) - int (env s))
     \<and> env s' = (if end_episode = episode s then env s else 0)"
  using assms
proof (induction "nat (3 * (end_episode - episode s) - int (env s))" arbitrary: ob s
    rule: less_induct)
  case less
  let ?W = "episodic_world ex st fi"
  show ?case
  proof (cases "episode s = end_episode")
    case True
    then show ?thesis using less.prems by (simp add: run_episodes_stop)
  next
    case False
    from step_env_episodic [OF less.prems(1), of 1 ex st fi ob] obtain ob1 s1 where
      r: "step_env ?W ob 1 s = Inr (ob1, s1)"
      and s1: "single_env_state s1" "env s1 = (env s + 1) mod 3"
        "episode s1 = episode s + int ((env s + 1) div 3)" "step s1 = step s + 1"
        "fits s1 = fits s"
      by auto
    have lt: "env s < 3" using less.prems(1) by (simp add: single_env_state_def)
    have u: "run_episodes ?W end_episode ob s = run_episodes ?W end_episode ob1 s1"
      using run_episodes_unfold [OF False r] .
    show ?thesis
    proof (cases "env s = 2")
      case True
      then have e1: "env s1 = 0" "episode s1 = episode s + 1" using s1 by simp_all
      have "nat (3 * (end_episode - episode s1) - int (env s1))
          < nat (3 * (end_episode - episode s) - int (env s))"
        using e1 True False less.prems(2) by simp
      moreover have "episode s1 \<le> end_episode" using e1 False less.prems(2) by simp
      ultimately obtain ob' s' where
        "run_episodes ?W end_episode ob1 s1 = Some (Inr (ob', s'))"
        "single_env_state s'" "episode s' = end_episode" "fits s' = fits s1"
        "step s' = step s1
          + (if end_episode = episode s1 then 0 else 3 * (end_episode - episode s1) - int (env s1))"
        "env s' = (if end_episode = episode s1 then env s1 else 0)"
        using less.hyps [OF _ s1(1), of ob1] by blast
      then show ?thesis
        using u s1 e1 True False by (intro exI [of _ ob'] exI [of _ s']) auto
    next
      case F2: False
      then have e1: "env s1 = env s + 1" "episode s1 = episode s" using s1 lt by simp_all
      have "nat (3 * (end_episode - episode s1) - int (env s1))
          < nat (3 * (end_episode - episode s) - int (env s))"
        using e1 F2 False less.prems(2) lt by simp
      moreover have "episode s1 \<le> end_episode" using e1 less.prems(2) by simp
      ultimately obtain ob' s' where
        "run_episodes ?W end_episode ob1 s1 = Some (Inr (ob', s'))"
        "single_env_state s'" "episode s' = end_episode" "fits s' = fits s1"
        "step s' = step s1
          + (if end_episode = episode s1 then 0 else 3 * (end_episode - episode s1) - int (env s1))"
        "env s' = (if end_episode = episode s1 then env s1 else 0)"
        using less.hyps [OF _ s1(1), of ob1] by blast
      then show ?thesis
        using u s1 e1 False by (intro exI [of _ ob'] exI [of _ s']) auto
    qed
  qed
qed

lemma train_single_env_state:
  "single_env_state (train w bs ae ce s) = single_env_state s"
  "env (train w bs ae ce s) = env s"
  by (simp_all add: train_def log_event_def single_env_state_def split: prod.splits)

lemma fit_single_env_episode_run:
  assumes "single_env_state s" "step s = 0" "episode s = 0"
  shows "\<exists>s'. fit (episodic_world ex st fi) 6 3 ae ce (''episode'', 1) s = Some (Inr s')
     \<and> fits s' = fits s + 1 \<and> episode s' = 2 \<and> step s' = 6"
proof -
  let ?W = "episodic_world ex st fi"
  let ?s0 = "log_event EnvReset (s\<lparr>env := 0\<rparr>)"
  have er: "env_reset ?W (env s) = (0, 0)" by (simp add: episodic_world_def)
  have s0: "single_env_state ?s0" "env ?s0 = 0" "step ?s0 = 0" "episode ?s0 = 0"
    "fits ?s0 = fits s"
    using assms by (simp_all add: single_env_state_def log_event_def fits_def)
  from step_env_episodic [OF s0(1), of 3 ex st fi 0] obtain ob1 s1 where
    w: "step_env ?W 0 3 ?s0 = Inr (ob1, s1)"
    and s1: "single_env_state s1" "env s1 = 0" "episode s1 = 1" "step s1 = 3"
      "fits s1 = fits s"
    using s0 by auto
  let ?s2 = "train ?W 3 ae ce s1"
  have s2: "single_env_state ?s2" "env ?s2 = 0" "episode ?s2 = 1" "step ?s2 = 3"
    "fits ?s2 = fits s + 1"
    using s1 by (simp_all add: train_single_env_state train_effects)
  from run_episodes_episodic [OF s2(1), of 2 ex st fi ob1] obtain ob3 s3 where
    r: "run_episodes ?W 2 ob1 ?s2 = Some (Inr (ob3, s3))"
    and s3: "episode s3 = 2" "fits s3 = fits s + 1" "step s3 = 6"
    using s2 by auto
  have l: "[0..<nat 6] = 0 # 1 # [2..<6]" by (simp add: upt_conv_Cons)
  have nt: "\<not> terminated s1" using s1(1) by (simp add: single_env_state_def)
  have e2: "episode ?s2 + 1 = 2" using s2 by simp
  have "fit ?W 6 3 ae ce (''episode'', 1) s
      = fit_loop ?W EPISODE 1 6 3 ae ce [0..<nat 6] 0 ?s0"
    by (rule fit_unfold [OF normalise_frequency_episode er])
  also have "\<dots> = fit_loop ?W EPISODE 1 6 3 ae ce (0 # 1 # [2..<6]) 0 ?s0"
    by (simp only: l)
  also have "\<dots> = fit_loop ?W EPISODE 1 6 3 ae ce (1 # [2..<6]) ob1 ?s2"
    by (simp only: fit_loop_first [OF w] nt if_False)
  also have "\<dots> = Some (Inr s3)"
    by (subst fit_loop_episode_unfold) (simp_all add: e2 r s3)
  finally show ?thesis using s3 by simp
qed

lemma fresh_agent_state:
  "single_env_state fresh_agent" "step fresh_agent = 0" "episode fresh_agent = 0"
  "fits fresh_agent = 0" "env_steps fresh_agent = 0" "writes fresh_agent = 0"
  "resets fresh_agent = 0" "env fresh_agent = 0"
  by (simp_all add: fresh_agent_def single_env_state_def agent_counts)

text \<open>
  C9, as the code has it. A single environment with three-step episodes, no callbacks,
  train frequency \<open>("episode", 1)\<close>, batch size 3 and \<open>num_steps = 6\<close>, from an agent
  whose counters are 0: \<open>fit\<close> returns after exactly one call of \<open>_fit\<close>, with the
  episode counter at 2 and the step counter at 6. The warm-up takes the first episode and
  is followed by \<open>_fit\<close>; the second episode brings the step counter to the budget, and
  the loop leaves before the second \<open>_fit\<close>.
\<close>

theorem fit_single_env_scenario:
  assumes "single_env_state s" "step s = 0" "episode s = 0"
  shows "\<exists>s'. fit (episodic_world ex st fi) 6 3 ae ce (''episode'', 1) s = Some (Inr s')
     \<and> fits s' = fits s + 1 \<and> episode s' = 2 \<and> step s' = 6"
  using assms by (rule fit_single_env_episode_run)

theorem fit_single_env_scenario_witness:
  "run_summary (fit unit_world 6 3 1 1 (''episode'', 1) fresh_agent) = Some (Inr (1, 2))"
  using fit_single_env_scenario [OF fresh_agent_state(1-3), of "\<lambda>m ob n. ()"
      "\<lambda>b ob a r nob dn. b + 1" "\<lambda>bs ae ce m b. (m, b)" 1 1]
  by (auto simp add: unit_world_def run_summary_def fresh_agent_state)

text \<open>
  C9 as stated fails: the run does not end with two calls of \<open>_fit\<close> and an episode
  counter of 2.
\<close>

theorem fit_single_env_two_triggers_counterexample:
  "run_summary (fit unit_world 6 3 1 1 (''episode'', 1) fresh_agent) \<noteq> Some (Inr (2, 2))"
  using fit_single_env_episode_run [OF fresh_agent_state(1-3), of "\<lambda>m ob n. ()"
      "\<lambda>b ob a r nob dn. b + 1" "\<lambda>bs ae ce m b. (m, b)" 1 1]
  by (auto simp add: unit_world_def run_summary_def fresh_agent_state)

text \<open>
  C6 at a failing input. An evolution agent with a callback that always vetoes, trained
  for two steps at frequency \<open>("step", 1)\<close>: \<open>step_env\<close> sets \<open>done\<close> and leaves
  the step counter at 0, but \<open>BaseEvolutionAgent.fit\<close> never reads the flag and calls
  \<open>_fit\<close> in both iterations. The deep agent in the same situation stops after the
  first interaction without calling \<open>_fit\<close>.
\<close>

theorem evolution_fit_ignores_veto:
  "map_option (map_sum id (\<lambda>s. (done_attr s, fits s, env_steps s, step s)))
     (evolution_fit veto_evolution_world 2 (''step'', 1) veto_evolution_agent)
     = Some (Inr (Some True, 2, 2, 0))
   \<and> map_option (map_sum id (\<lambda>s. (terminated s, fits s, env_steps s, step s)))
     (fit veto_world 2 1 1 1 (''step'', 1) veto_agent)
     = Some (Inr (True, 0, 1, 0))"
proof
  have l: "[0..<2] = [0, Suc 0]" by (simp add: upt_conv_Cons)
  show "map_option (map_sum id (\<lambda>s. (done_attr s, fits s, env_steps s, step s)))
     (evolution_fit veto_evolution_world 2 (''step'', 1) veto_evolution_agent)
     = Some (Inr (Some True, 2, 2, 0))"
    by (simp add: evolution_fit_def normalise_frequency_step l veto_evolution_world_def
        veto_evolution_agent_def evolution_interaction_phase_def evolution_step_env_def
        evolution_interact_def run_callbacks_def evaluate_agent_def evolution_train_def
        log_event_def bind_err_def reset_episode_log_def agent_counts Let_def)
  show "map_option (map_sum id (\<lambda>s. (terminated s, fits s, env_steps s, step s)))
     (fit veto_world 2 1 1 1 (''step'', 1) veto_agent)
     = Some (Inr (True, 0, 1, 0))"
    by (simp add: fit_def normalise_frequency_step l veto_world_def unit_world_def
        episodic_world_def veto_agent_def fresh_agent_def interaction_phase_def step_env_def
        interact_def next_observation_of_def set_true_def flush_episode_def
        check_callbacks_def run_callbacks_def
        log_event_def bind_err_def reset_episode_log_def agent_counts Let_def)
qed

section \<open>Warm-up and cadence at concrete inputs\<close>

theorem episode_flush_iff_all_done_witness:
  "(\<exists>ob' s' stop. interact unit_world 0 (fresh_agent\<lparr>env := 2\<rparr>) = Inr (ob', s', stop)
       \<and> writes s' = 1 \<and> resets s' = 1 \<and> episode s' = 1)
   \<and> (\<exists>ob' s' stop. interact unit_world 0 fresh_agent = Inr (ob', s', stop)
       \<and> writes s' = 0 \<and> resets s' = 0 \<and> episode s' = 0 \<and> episode_dones s' = [False])"
proof
  let ?s = "fresh_agent\<lparr>env := 2\<rparr>"
  have inv: "single_env_state ?s" by (simp add: fresh_agent_def single_env_state_def)
  from interact_episodic [OF inv, of "\<lambda>m ob n. ()" "\<lambda>b ob a r nob dn. b + 1"
      "\<lambda>bs ae ce m b. (m, b)" 0]
  obtain ob' s' where i: "interact unit_world 0 ?s = Inr (ob', s', False)"
    by (auto simp add: unit_world_def)
  have m: "updated_mask unit_world 0 ?s = Inr [True]"
    by (simp add: updated_mask_def step_dones_def unit_world_def episodic_world_def
        fresh_agent_def set_true_def)
  have c: "writes ?s = 0" "resets ?s = 0" "episode ?s = 0"
    by (simp_all add: fresh_agent_def agent_counts)
  from episode_flush_iff_all_done [OF i] m c
  have "writes s' = 1 \<and> resets s' = 1 \<and> episode s' = 1" by auto
  with i show "\<exists>ob' s' stop. interact unit_world 0 ?s = Inr (ob', s', stop)
       \<and> writes s' = 1 \<and> resets s' = 1 \<and> episode s' = 1" by blast
next
  from interact_episodic [OF fresh_agent_state(1), of "\<lambda>m ob n. ()" "\<lambda>b ob a r nob dn. b + 1"
      "\<lambda>bs ae ce m b. (m, b)" 0]
  obtain ob' s' where i: "interact unit_world 0 fresh_agent = Inr (ob', s', False)"
    by (auto simp add: unit_world_def)
  have m: "updated_mask unit_world 0 fresh_agent = Inr [False]"
    by (simp add: updated_mask_def step_dones_def unit_world_def episodic_world_def
        fresh_agent_def set_true_def)
  from episode_flush_iff_all_done [OF i] m fresh_agent_state
  have "writes s' = 0 \<and> resets s' = 0 \<and> episode s' = 0 \<and> episode_dones s' = [False]" by auto
  with i show "\<exists>ob' s' stop. interact unit_world 0 fresh_agent = Inr (ob', s', stop)
       \<and> writes s' = 0 \<and> resets s' = 0 \<and> episode s' = 0 \<and> episode_dones s' = [False]"
    by blast
qed

theorem fit_warmup_witness:
  "\<exists>ob1 s1. step_env unit_world 0 3 (log_event EnvReset (fresh_agent\<lparr>env := 0\<rparr>)) = Inr (ob1, s1)
     \<and> \<not> terminated s1 \<and> env_steps s1 = 3 \<and> fits s1 = 0
     \<and> fit unit_world 6 3 1 1 (''episode'', 1) fresh_agent
         = fit_loop unit_world EPISODE 1 6 3 1 1 [1..<nat 6] ob1 (train unit_world 3 1 1 s1)
     \<and> fit unit_world 6 3 1 1 (''step'', 2) fresh_agent
         = fit_loop unit_world STEP 2 3 3 1 1 [1..<nat 3] ob1 (train unit_world 3 1 1 s1)"
proof -
  let ?s0 = "log_event EnvReset (fresh_agent\<lparr>env := 0\<rparr>)"
  have inv: "single_env_state ?s0"
    by (simp add: fresh_agent_def single_env_state_def log_event_def)
  from step_env_episodic [OF inv, of 3 "\<lambda>m ob n. ()" "\<lambda>b ob a r nob dn. b + 1"
      "\<lambda>bs ae ce m b. (m, b)" 0]
  obtain ob1 s1 where w: "step_env unit_world 0 3 ?s0 = Inr (ob1, s1)"
    and s1: "single_env_state s1"
    by (auto simp add: unit_world_def)
  have nt: "\<not> terminated s1" using s1 by (simp add: single_env_state_def)
  have er: "env_reset unit_world (env fresh_agent) = (0, 0)"
    by (simp add: unit_world_def episodic_world_def)
  have ns: "normalise_frequency (''step'', 2) 6 = Inr (STEP, 2, 3)"
    using normalise_frequency_step [of 2 6] by simp
  from fit_warmup [OF normalise_frequency_episode _ er w nt, of 6 1 1 1]
    fit_warmup [OF ns _ er w nt, of 1 1] fresh_agent_state
  show ?thesis using w nt by simp
qed








end
